theory Spec2Isabelle
  imports Complex_Main "HOL-Library.Mapping" "HOL-Library.AList_Mapping"
begin

section \<open>The predictive repair agent (scripts/predictive_repair_agent.py)\<close>

text \<open>
  A shallow embedding of \<^verbatim>\<open>ServiceMetrics\<close> and of the decision core of
  \<^verbatim>\<open>PredictiveRepairAgent\<close>. Python's \<^verbatim>\<open>float\<close> is read as \<^typ>\<open>real\<close>:
  the arithmetic below is the exact arithmetic the source formulas denote, without the
  rounding of IEEE doubles and without NaN or infinities. Python's \<^verbatim>\<open>int\<close> is
  \<^typ>\<open>int\<close>, \<^verbatim>\<open>str\<close> is \<^typ>\<open>string\<close>, \<^verbatim>\<open>Optional[T]\<close> is
  \<^typ>\<open>'a option\<close>, a \<^verbatim>\<open>dict\<close> is a \<^typ>\<open>('k, 'v) mapping\<close>. Mutation of
  \<^verbatim>\<open>self\<close> is explicit state passing.
\<close>

subsection \<open>ServiceMetrics\<close>

record ServiceMetrics =
  timestamp :: int
  service :: string
  cpu_usage :: real
  memory_usage :: real
  disk_usage :: real
  network_errors :: int
  restart_count :: int
  health_status :: string
  response_time :: real
  error_rate :: real
  request_rate :: real

text \<open>
  \<^verbatim>\<open>to_features\<close> builds \<^verbatim>\<open>np.array([...])\<close> of nine entries; the two integer fields
  and the 0/1 health flag are converted to floats by numpy.
\<close>

definition to_features :: "ServiceMetrics \<Rightarrow> real list" where
  "to_features m =
     [cpu_usage m,
      memory_usage m,
      disk_usage m,
      real_of_int (network_errors m),
      real_of_int (restart_count m),
      (if health_status m = ''unhealthy'' then 1 else 0),
      response_time m,
      error_rate m,
      request_rate m]"

subsection \<open>Learned models and the agent's state\<close>

text \<open>
  The scikit-learn estimators are library objects. An estimator object is modelled by what
  determines it: its constructor (fixed hyper-parameters, fixed \<^verbatim>\<open>random_state\<close>) and
  the data it was fitted on, \<open>None\<close> while it is unfitted.
\<close>

datatype scaler_obj = StandardScaler (scaler_fitted: "real list list option")

datatype forest_obj =
  RandomForestClassifier (forest_fitted: "(real list list \<times> int list) option")

datatype isolation_obj = IsolationForest (isolation_fitted: "real list list option")

datatype json =
  JNull | JBool bool | JNum real | JStr string | JArr "json list" | JObj "(string \<times> json) list"

record agent =
  failure_predictor :: "forest_obj option"
  anomaly_detector :: "isolation_obj option"
  scaler :: "scaler_obj option"
  q_table :: "(string \<times> string, real) mapping"
  learning_rate :: real
  discount_factor :: real
  epsilon :: real
  metrics_history :: "ServiceMetrics list"
  failure_history :: "json list"

text \<open>The attribute \<^verbatim>\<open>self.actions\<close> is assigned once, in the constructor.\<close>

definition actions :: "string list" where
  "actions =
     [''restart'', ''scale_up'', ''scale_down'', ''clear_cache'',
      ''optimize_config'', ''rollback'', ''no_action'']"

text \<open>The state the constructor sets up before \<^verbatim>\<open>load_models\<close> and \<^verbatim>\<open>load_history\<close>.\<close>

definition init_agent :: agent where
  "init_agent =
     \<lparr>failure_predictor = None, anomaly_detector = None, scaler = None,
      q_table = Mapping.empty, learning_rate = 1 / 10, discount_factor = 95 / 100,
      epsilon = 1 / 10, metrics_history = [], failure_history = []\<rparr>"

subsection \<open>The metrics store: \<^verbatim>\<open>deque(maxlen=10000)\<close>\<close>

definition metrics_maxlen :: nat where
  "metrics_maxlen = 10000"

text \<open>
  \<^verbatim>\<open>deque.append\<close> on a bounded deque puts the item at the right end and, when the
  length then exceeds \<^verbatim>\<open>maxlen\<close>, pops one item from the left end.
\<close>

definition deque_append :: "nat \<Rightarrow> 'a list \<Rightarrow> 'a \<Rightarrow> 'a list" where
  "deque_append n q x = (let q' = q @ [x] in if n < length q' then tl q' else q')"

text \<open>The loop \<^verbatim>\<open>for metric in metrics: self.metrics_history.append(metric)\<close> of \<^verbatim>\<open>run\<close>.\<close>

definition store_metrics :: "agent \<Rightarrow> ServiceMetrics list \<Rightarrow> agent" where
  "store_metrics ag metrics =
     ag\<lparr>metrics_history := foldl (deque_append metrics_maxlen) (metrics_history ag) metrics\<rparr>"

subsection \<open>Reinforcement learning: state key, policy, update, reward\<close>

definition get_state :: "ServiceMetrics \<Rightarrow> string" where
  "get_state metric =
     (let cpu_state = (if cpu_usage metric > 7 / 10 then ''high''
                       else if cpu_usage metric > 3 / 10 then ''medium'' else ''low'');
          mem_state = (if memory_usage metric > 7 / 10 then ''high''
                       else if memory_usage metric > 3 / 10 then ''medium'' else ''low'');
          health_state = (if health_status metric = ''unhealthy'' then ''unhealthy''
                          else ''healthy'')
      in service metric @ ''_'' @ cpu_state @ ''_'' @ mem_state @ ''_'' @ health_state)"

text \<open>\<^verbatim>\<open>self.q_table.get((state, action), 0.0)\<close>\<close>

definition q_get :: "agent \<Rightarrow> string \<Rightarrow> string \<Rightarrow> real" where
  "q_get ag state action =
     (case Mapping.lookup (q_table ag) (state, action) of None \<Rightarrow> 0 | Some q \<Rightarrow> q)"

text \<open>
  \<^verbatim>\<open>max(d, key=d.get)\<close> over a dict \<open>d\<close>, given as its items in insertion order:
  the scan keeps the current best key and replaces it only by a key whose value is
  strictly greater; on the empty dict \<^verbatim>\<open>max\<close> raises, which is \<open>None\<close> here.
\<close>

definition max_step :: "'k \<times> real \<Rightarrow> 'k \<times> real \<Rightarrow> 'k \<times> real" where
  "max_step best item = (if snd best < snd item then item else best)"

fun py_max_by_value :: "('k \<times> real) list \<Rightarrow> 'k option" where
  "py_max_by_value [] = None"
| "py_max_by_value (item # items) = Some (fst (foldl max_step item items))"

text \<open>
  The dict comprehension of \<^verbatim>\<open>select_action\<close>; the seven action names are distinct, so
  the dict has one item per action, in the order of \<^verbatim>\<open>self.actions\<close>.
\<close>

definition q_values :: "agent \<Rightarrow> string \<Rightarrow> (string \<times> real) list" where
  "q_values ag state = map (\<lambda>action. (action, q_get ag state action)) actions"

text \<open>
  \<^verbatim>\<open>select_action\<close> draws from numpy's global generator: \<open>u\<close> is the value of
  \<^verbatim>\<open>np.random.random()\<close>, in \<open>[0, 1)\<close>, and \<open>pick\<close> the index that
  \<^verbatim>\<open>np.random.choice\<close> draws.
\<close>

definition select_action :: "agent \<Rightarrow> real \<Rightarrow> nat \<Rightarrow> string \<Rightarrow> string option" where
  "select_action ag u pick state =
     (if u < epsilon ag then
        (if pick < length actions then Some (actions ! pick) else None)
      else py_max_by_value (q_values ag state))"

definition update_q_value :: "agent \<Rightarrow> string \<Rightarrow> string \<Rightarrow> real \<Rightarrow> agent" where
  "update_q_value ag state action reward =
     (let current_q = q_get ag state action;
          new_q = current_q + learning_rate ag * (reward - current_q)
      in ag\<lparr>q_table := Mapping.update (state, action) new_q (q_table ag)\<rparr>)"

definition calculate_reward :: "ServiceMetrics \<Rightarrow> ServiceMetrics option \<Rightarrow> bool \<Rightarrow> real" where
  "calculate_reward before after success =
     (if \<not> success then - 10
      else case after of
        None \<Rightarrow> 0
      | Some a \<Rightarrow>
          (let reward = 0;
               reward = (if cpu_usage a < cpu_usage before
                         then reward + 5 * (cpu_usage before - cpu_usage a) else reward);
               reward = (if memory_usage a < memory_usage before
                         then reward + 5 * (memory_usage before - memory_usage a) else reward);
               reward = (if error_rate a < error_rate before
                         then reward + 10 * (error_rate before - error_rate a) else reward);
               reward = (if response_time a < response_time before
                         then reward + 3 * (response_time before - response_time a) else reward);
               reward = (if health_status a = ''healthy'' then reward + 5 else reward);
               reward = (if cpu_usage a > cpu_usage before then reward - 3 else reward);
               reward = (if memory_usage a > memory_usage before then reward - 3 else reward)
           in reward))"

subsection \<open>Training\<close>

datatype exn = ValueError | AttributeError

text \<open>
  What scikit-learn does on a given input is not code of this repository; it is a
  parameter. \<open>scaler_fit_transform X\<close> is the outcome of
  \<^verbatim>\<open>StandardScaler().fit_transform(X)\<close>: the scaled matrix, or the exception it raises
  (input validation rejects NaN and infinite entries). \<open>forest_fit\<close> and
  \<open>isolation_fit\<close> are the outcomes of the two \<^verbatim>\<open>fit\<close> calls: \<open>None\<close> when the
  call returns, the exception otherwise.
\<close>

record sklearn =
  scaler_fit_transform :: "real list list \<Rightarrow> exn + real list list"
  forest_fit :: "real list list \<Rightarrow> int list \<Rightarrow> exn option"
  isolation_fit :: "real list list \<Rightarrow> exn option"

text \<open>\<^verbatim>\<open>xs[:-10]\<close>, \<^verbatim>\<open>xs[i+1:i+6]\<close> and \<^verbatim>\<open>xs[-1000:]\<close>; Python slices clamp to the list.\<close>

definition all_but_last_10 :: "'a list \<Rightarrow> 'a list" where
  "all_but_last_10 xs = take (length xs - 10) xs"

definition future_window :: "'a list \<Rightarrow> nat \<Rightarrow> 'a list" where
  "future_window xs i = take 5 (drop (i + 1) xs)"

definition last_1000 :: "'a list \<Rightarrow> 'a list" where
  "last_1000 xs = drop (length xs - 1000) xs"

text \<open>The label of the snapshot \<open>metric\<close> at position \<open>i\<close> of the stored window.\<close>

definition failed_later :: "ServiceMetrics list \<Rightarrow> nat \<Rightarrow> ServiceMetrics \<Rightarrow> bool" where
  "failed_later history i metric =
     (let future_metrics = future_window history i
      in list_ex (\<lambda>m. service m = service metric \<and>
                     (health_status m = ''unhealthy'' \<or> restart_count m > restart_count metric))
           future_metrics)"

text \<open>The loop that fills \<^verbatim>\<open>X\<close> and \<^verbatim>\<open>y\<close>.\<close>

definition training_data :: "ServiceMetrics list \<Rightarrow> real list list \<times> int list" where
  "training_data history =
     (let rows = enumerate 0 (all_but_last_10 history)
      in (map (\<lambda>(i, metric). to_features metric) rows,
          map (\<lambda>(i, metric). if failed_later history i metric then 1 else 0) rows))"

text \<open>
  The body of the \<^verbatim>\<open>try\<close> of \<^verbatim>\<open>train_models\<close>: each attribute is assigned a fresh
  estimator first and the estimator is fitted afterwards, so an exception leaves the
  attributes assigned so far. The result is the agent where the body stopped and the
  exception that stopped it, if any.
\<close>

definition train_body :: "sklearn \<Rightarrow> agent \<Rightarrow> agent \<times> exn option" where
  "train_body sk ag =
     (let (X, y) = training_data (metrics_history ag);
          ag = ag\<lparr>scaler := Some (StandardScaler None)\<rparr>
      in case scaler_fit_transform sk X of
           Inl e \<Rightarrow> (ag, Some e)
         | Inr X_scaled \<Rightarrow>
             (let ag = ag\<lparr>scaler := Some (StandardScaler (Some X))\<rparr>;
                  ag = ag\<lparr>failure_predictor := Some (RandomForestClassifier None)\<rparr>
              in case forest_fit sk X_scaled y of
                   Some e \<Rightarrow> (ag, Some e)
                 | None \<Rightarrow>
                     (let ag = ag\<lparr>failure_predictor :=
                                     Some (RandomForestClassifier (Some (X_scaled, y)))\<rparr>;
                          ag = ag\<lparr>anomaly_detector := Some (IsolationForest None)\<rparr>
                      in case isolation_fit sk X_scaled of
                           Some e \<Rightarrow> (ag, Some e)
                         | None \<Rightarrow>
                             (ag\<lparr>anomaly_detector := Some (IsolationForest (Some X_scaled))\<rparr>,
                              None))))"

text \<open>The \<^verbatim>\<open>except\<close> clause logs the exception and returns.\<close>

definition train_models :: "sklearn \<Rightarrow> agent \<Rightarrow> agent" where
  "train_models sk ag =
     (if length (metrics_history ag) < 100 then ag else fst (train_body sk ag))"

subsection \<open>Persistence\<close>

text \<open>
  The model directory: \<open>dir_ok\<close> says whether \<^verbatim>\<open>os.makedirs\<close> succeeds; each
  artifact file is absent (\<open>None\<close>), or holds a pickled object, or is unreadable, in
  which case \<^verbatim>\<open>joblib.load\<close> raises.
\<close>

datatype 'a pkl = Pickled 'a | Corrupt

record model_dir =
  dir_ok :: bool
  predictor_pkl :: "forest_obj pkl option"
  anomaly_pkl :: "isolation_obj pkl option"
  scaler_pkl :: "scaler_obj pkl option"
  qtable_pkl :: "(string \<times> string, real) mapping pkl option"

text \<open>
  \<^verbatim>\<open>load_models\<close>: four independent \<^verbatim>\<open>if os.path.exists(...)\<close> blocks inside one
  \<^verbatim>\<open>try\<close>; the first exception ends the function with the attributes loaded so far.
\<close>

definition load_models :: "agent \<Rightarrow> model_dir \<Rightarrow> agent" where
  "load_models ag d =
     (if \<not> dir_ok d then ag
      else case predictor_pkl d of
        Some Corrupt \<Rightarrow> ag
      | p \<Rightarrow>
        (let ag = (case p of Some (Pickled x) \<Rightarrow> ag\<lparr>failure_predictor := Some x\<rparr> | _ \<Rightarrow> ag)
         in case anomaly_pkl d of
           Some Corrupt \<Rightarrow> ag
         | a \<Rightarrow>
           (let ag = (case a of Some (Pickled x) \<Rightarrow> ag\<lparr>anomaly_detector := Some x\<rparr> | _ \<Rightarrow> ag)
            in case scaler_pkl d of
              Some Corrupt \<Rightarrow> ag
            | s \<Rightarrow>
              (let ag = (case s of Some (Pickled x) \<Rightarrow> ag\<lparr>scaler := Some x\<rparr> | _ \<Rightarrow> ag)
               in case qtable_pkl d of
                 Some (Pickled x) \<Rightarrow> ag\<lparr>q_table := x\<rparr>
               | _ \<Rightarrow> ag))))"

text \<open>
  Truth values of the attributes in \<^verbatim>\<open>if self.failure_predictor:\<close>. Both forest classes
  inherit \<^verbatim>\<open>__len__\<close> (the number of fitted trees, 100 here) from scikit-learn's
  \<^verbatim>\<open>BaseEnsemble\<close>, which reads \<^verbatim>\<open>estimators_\<close> and so raises on an unfitted object;
  \<^verbatim>\<open>StandardScaler\<close> defines neither \<^verbatim>\<open>__bool__\<close> nor \<^verbatim>\<open>__len__\<close>; a dict is
  true when it is not empty.
\<close>

definition forest_truthy :: "forest_obj option \<Rightarrow> exn + bool" where
  "forest_truthy f =
     (case f of None \<Rightarrow> Inr False
      | Some (RandomForestClassifier None) \<Rightarrow> Inl AttributeError
      | Some (RandomForestClassifier (Some _)) \<Rightarrow> Inr True)"

definition isolation_truthy :: "isolation_obj option \<Rightarrow> exn + bool" where
  "isolation_truthy f =
     (case f of None \<Rightarrow> Inr False
      | Some (IsolationForest None) \<Rightarrow> Inl AttributeError
      | Some (IsolationForest (Some _)) \<Rightarrow> Inr True)"

text \<open>
  \<^verbatim>\<open>save_models\<close> assigns no attribute of the agent; it writes one file per attribute
  that is true, and the first exception ends it. Once the directory is there the writes
  are taken to succeed.
\<close>

definition save_models :: "agent \<Rightarrow> model_dir \<Rightarrow> model_dir" where
  "save_models ag d =
     (if \<not> dir_ok d then d
      else case forest_truthy (failure_predictor ag) of
        Inl e \<Rightarrow> d
      | Inr b1 \<Rightarrow>
        (let d = (if b1 then d\<lparr>predictor_pkl := map_option Pickled (failure_predictor ag)\<rparr> else d)
         in case isolation_truthy (anomaly_detector ag) of
           Inl e \<Rightarrow> d
         | Inr b2 \<Rightarrow>
           (let d = (if b2 then d\<lparr>anomaly_pkl := map_option Pickled (anomaly_detector ag)\<rparr> else d);
                d = (if scaler ag \<noteq> None
                     then d\<lparr>scaler_pkl := map_option Pickled (scaler ag)\<rparr> else d)
            in if \<not> Mapping.is_empty (q_table ag)
               then d\<lparr>qtable_pkl := Some (Pickled (q_table ag))\<rparr> else d)))"

text \<open>
  The history artifact. \<open>now\<close> is \<^verbatim>\<open>datetime.now().isoformat()\<close>; \<open>data_writable\<close>
  says whether creating the directory, opening the file and \<^verbatim>\<open>json.dump\<close> succeed.
\<close>

record history_artifact =
  failures :: "json list"
  last_updated :: string

record history_store =
  data_writable :: bool
  data_file :: "history_artifact option"

definition history_data :: "agent \<Rightarrow> string \<Rightarrow> history_artifact" where
  "history_data ag now = \<lparr>failures = last_1000 (failure_history ag), last_updated = now\<rparr>"

definition save_history :: "agent \<Rightarrow> string \<Rightarrow> history_store \<Rightarrow> history_store" where
  "save_history ag now st =
     (if data_writable st then st\<lparr>data_file := Some (history_data ag now)\<rparr> else st)"

subsection \<open>Specification-side notions\<close>

text \<open>
  The policy as the specification words it: the action of maximum Q-value for the state,
  unseen pairs counting as 0, ties going to the action that comes first in the fixed
  enumeration order. That is the first action of the list that no action beats.
\<close>

definition greedy_action :: "agent \<Rightarrow> string \<Rightarrow> string option" where
  "greedy_action ag state =
     find (\<lambda>a. list_all (\<lambda>b. q_get ag state b \<le> q_get ag state a) actions) actions"

text \<open>
  The model group as the specification words it: classifier, detector and scaler are all
  set or all unset; and the same for the three artifact files of a model directory.
\<close>

definition group_atomic :: "agent \<Rightarrow> bool" where
  "group_atomic ag =
     ((failure_predictor ag = None \<and> anomaly_detector ag = None \<and> scaler ag = None)
      \<or> (failure_predictor ag \<noteq> None \<and> anomaly_detector ag \<noteq> None \<and> scaler ag \<noteq> None))"

definition loadable :: "'a pkl option \<Rightarrow> bool" where
  "loadable f = (case f of Some (Pickled _) \<Rightarrow> True | _ \<Rightarrow> False)"

definition dir_all_or_none :: "model_dir \<Rightarrow> bool" where
  "dir_all_or_none d =
     ((predictor_pkl d = None \<and> anomaly_pkl d = None \<and> scaler_pkl d = None)
      \<or> (loadable (predictor_pkl d) \<and> loadable (anomaly_pkl d) \<and> loadable (scaler_pkl d)))"

text \<open>
  The horizon of the label as the specification words it: the next \<open>k\<close> snapshots for
  the same service, that is, of the snapshots stored after position \<open>i\<close> those of the
  service at position \<open>i\<close>, the first \<open>k\<close> of them.
\<close>

definition next_same_service :: "nat \<Rightarrow> ServiceMetrics list \<Rightarrow> nat \<Rightarrow> ServiceMetrics list" where
  "next_same_service k history i =
     take k (filter (\<lambda>m. service m = service (history ! i)) (drop (i + 1) history))"

subsection \<open>Sample inputs\<close>

definition snapshot :: "string \<Rightarrow> string \<Rightarrow> int \<Rightarrow> ServiceMetrics" where
  "snapshot svc health restarts =
     \<lparr>timestamp = 0, service = svc, cpu_usage = 1 / 2, memory_usage = 1 / 5, disk_usage = 0,
      network_errors = 0, restart_count = restarts, health_status = health,
      response_time = 0, error_rate = 0, request_rate = 0\<rparr>"

text \<open>Thirteen snapshots of two services; the third one reports redis unhealthy.\<close>

definition sample_window :: "ServiceMetrics list" where
  "sample_window =
     [snapshot ''redis'' ''healthy'' 0, snapshot ''postgres'' ''healthy'' 0,
      snapshot ''redis'' ''unhealthy'' 0]
     @ replicate 10 (snapshot ''postgres'' ''healthy'' 0)"

text \<open>
  The seven services that \<^verbatim>\<open>collect_metrics\<close> reads, in its order; \<^verbatim>\<open>run\<close> stores one
  snapshot of each per tick. Three ticks: all healthy, then all unhealthy twice.
\<close>

definition services :: "string list" where
  "services =
     [''threat-detection-app'', ''dashboard'', ''postgres'', ''redis'',
      ''prometheus'', ''grafana'', ''celery-worker'']"

definition tick :: "string \<Rightarrow> ServiceMetrics list" where
  "tick health = map (\<lambda>svc. snapshot svc health 0) services"

definition interleaved_window :: "ServiceMetrics list" where
  "interleaved_window = tick ''healthy'' @ tick ''unhealthy'' @ tick ''unhealthy''"

text \<open>A window of exactly 100 snapshots, the least that \<^verbatim>\<open>train_models\<close> trains on.\<close>

definition full_window :: "ServiceMetrics list" where
  "full_window = replicate 100 (snapshot ''redis'' ''healthy'' 0)"

text \<open>
  Two runs of the library: one in which every fit returns (the scaled matrix is not
  looked at, so it is taken to be \<open>X\<close>), and one in which the scaler's input validation
  raises, as it does on a matrix with a NaN or infinite entry.
\<close>

definition fits_return :: sklearn where
  "fits_return =
     \<lparr>scaler_fit_transform = (\<lambda>X. Inr X), forest_fit = (\<lambda>X y. None),
      isolation_fit = (\<lambda>X. None)\<rparr>"

definition scaler_raises :: sklearn where
  "scaler_raises =
     \<lparr>scaler_fit_transform = (\<lambda>X. Inl ValueError), forest_fit = (\<lambda>X y. None),
      isolation_fit = (\<lambda>X. None)\<rparr>"

text \<open>
  A model directory that holds the artifact of a classifier trained on that window and
  nothing else, and an empty one.
\<close>

definition predictor_only_dir :: model_dir where
  "predictor_only_dir =
     \<lparr>dir_ok = True,
      predictor_pkl = Some (Pickled (RandomForestClassifier (Some (training_data full_window)))),
      anomaly_pkl = None, scaler_pkl = None, qtable_pkl = None\<rparr>"

definition empty_dir :: model_dir where
  "empty_dir =
     \<lparr>dir_ok = True, predictor_pkl = None, anomaly_pkl = None, scaler_pkl = None,
      qtable_pkl = None\<rparr>"

section \<open>Properties\<close>

subsection \<open>Feature extraction and the state key\<close>

text \<open>
  C8. Feature extraction is a function of the snapshot alone; its result always has nine
  components, and component 5 (the health feature) is 1 when \<^verbatim>\<open>health_status\<close> is
  \<^verbatim>\<open>'unhealthy'\<close> and 0 for every other status.
\<close>

theorem to_features_nine_dimensional:
  "length (to_features m) = 9
   \<and> to_features m ! 5 = (if health_status m = ''unhealthy'' then 1 else 0)
   \<and> (to_features m ! 5 = 1) = (health_status m = ''unhealthy'')"
  by (simp add: to_features_def)

text \<open>
  C10. A snapshot whose \<^verbatim>\<open>health_status\<close> is anything but \<^verbatim>\<open>'unhealthy'\<close>
  (\<^verbatim>\<open>'down'\<close> and \<^verbatim>\<open>'unknown'\<close> among them) has health feature 0 and a state key that ends
  in the bucket \<^verbatim>\<open>healthy\<close>; its feature vector and its state key are those of the same
  snapshot reported \<^verbatim>\<open>'healthy'\<close>.
\<close>

theorem down_unknown_read_as_healthy:
  assumes "health_status m \<noteq> ''unhealthy''"
  shows "to_features m ! 5 = 0
         \<and> (\<exists>p. get_state m = p @ ''_healthy'')
         \<and> to_features m = to_features (m\<lparr>health_status := ''healthy''\<rparr>)
         \<and> get_state m = get_state (m\<lparr>health_status := ''healthy''\<rparr>)"
proof (intro conjI)
  show "to_features m ! 5 = 0"
    using assms by (simp add: to_features_def)
  let ?p = "service m @ ''_''
          @ (if cpu_usage m > 7 / 10 then ''high''
             else if cpu_usage m > 3 / 10 then ''medium'' else ''low'')
          @ ''_''
          @ (if memory_usage m > 7 / 10 then ''high''
             else if memory_usage m > 3 / 10 then ''medium'' else ''low'')"
  have "get_state m = ?p @ ''_healthy''"
    using assms by (simp add: get_state_def Let_def)
  then show "\<exists>p. get_state m = p @ ''_healthy''"
    by (rule exI [of "\<lambda>p. get_state m = p @ ''_healthy''" ?p])
  show "to_features m = to_features (m\<lparr>health_status := ''healthy''\<rparr>)"
    using assms by (simp add: to_features_def)
  show "get_state m = get_state (m\<lparr>health_status := ''healthy''\<rparr>)"
    using assms by (simp add: get_state_def Let_def)
qed

theorem down_unknown_read_as_healthy_witness:
  "health_status (snapshot ''redis'' ''down'' 0) \<noteq> ''unhealthy''
   \<and> to_features (snapshot ''redis'' ''down'' 0) ! 5 = 0
   \<and> get_state (snapshot ''redis'' ''down'' 0) = get_state (snapshot ''redis'' ''healthy'' 0)
   \<and> get_state (snapshot ''redis'' ''down'' 0) = ''redis_medium_low_healthy''"
proof -
  have h: "health_status (snapshot ''redis'' ''down'' 0) \<noteq> ''unhealthy''"
    by (simp add: snapshot_def)
  have upd: "(snapshot ''redis'' ''down'' 0)\<lparr>health_status := ''healthy''\<rparr>
             = snapshot ''redis'' ''healthy'' 0"
    by (simp add: snapshot_def)
  have st: "get_state (snapshot ''redis'' ''healthy'' 0) = ''redis_medium_low_healthy''"
    by (simp add: snapshot_def get_state_def)
  from down_unknown_read_as_healthy [OF h] have
    "to_features (snapshot ''redis'' ''down'' 0) ! 5 = 0"
    "get_state (snapshot ''redis'' ''down'' 0) = get_state (snapshot ''redis'' ''healthy'' 0)"
    unfolding upd by blast+
  with h st show ?thesis
    by (simp only: simp_thms)
qed

subsection \<open>The reward\<close>

text \<open>
  C1. \<^verbatim>\<open>calculate_reward\<close> is the reward of the specification: \<open>-10\<close> whenever the
  action failed, whatever the snapshots; 0 for a successful action with no snapshot
  after it; otherwise 5 times the drop in cpu usage, 5 times the drop in memory usage,
  10 times the drop in error rate and 3 times the drop in response time (each drop
  counted only when positive), less 3 when cpu usage rose, less 3 when memory usage
  rose, plus 5 when the status after the action is \<^verbatim>\<open>'healthy'\<close>.
\<close>

theorem calculate_reward_formula:
  "calculate_reward before after False = - 10
   \<and> calculate_reward before None True = 0
   \<and> calculate_reward before (Some a) True =
       5 * max 0 (cpu_usage before - cpu_usage a)
       + 5 * max 0 (memory_usage before - memory_usage a)
       + 10 * max 0 (error_rate before - error_rate a)
       + 3 * max 0 (response_time before - response_time a)
       - (if cpu_usage a > cpu_usage before then 3 else 0)
       - (if memory_usage a > memory_usage before then 3 else 0)
       + (if health_status a = ''healthy'' then 5 else 0)"
  by (simp add: calculate_reward_def Let_def max_def)

subsection \<open>The Q-table\<close>

lemma q_get_update_same:
  "q_get (update_q_value ag s a r) s a = q_get ag s a + learning_rate ag * (r - q_get ag s a)"
  by (simp add: update_q_value_def q_get_def Let_def)

lemma one_step_distance:
  fixes q r \<alpha> :: real
  assumes "\<alpha> \<le> 1"
  shows "\<bar>q + \<alpha> * (r - q) - r\<bar> = (1 - \<alpha>) * \<bar>q - r\<bar>"
proof -
  have "q + \<alpha> * (r - q) - r = (1 - \<alpha>) * (q - r)"
    by (simp add: algebra_simps)
  then show ?thesis
    using assms by (simp add: abs_mult)
qed

text \<open>
  C2. \<^verbatim>\<open>update_q_value\<close> stores \<open>Q\<^sub>0 + \<alpha> (R - Q\<^sub>0)\<close> under the pair (state, action),
  where \<open>Q\<^sub>0\<close> is the value stored before, 0 when the pair is unseen; no other entry of the
  table enters the new value or is changed by it; and the distance of the stored value
  to the reward shrinks by the factor \<open>1 - \<alpha>\<close>. The rate \<open>\<alpha>\<close> is the attribute
  \<^verbatim>\<open>learning_rate\<close>, which the constructor sets to 0.1 and nothing changes; the law is
  stated for every rate up to 1.
\<close>

theorem update_q_value_one_step:
  assumes "learning_rate ag \<le> 1"
  shows "Mapping.lookup (q_table (update_q_value ag s a r)) (s, a)
           = Some (q_get ag s a + learning_rate ag * (r - q_get ag s a))
         \<and> (Mapping.lookup (q_table ag) (s, a) = None \<longrightarrow> q_get ag s a = 0)
         \<and> \<bar>q_get (update_q_value ag s a r) s a - r\<bar>
           = (1 - learning_rate ag) * \<bar>q_get ag s a - r\<bar>
         \<and> (\<forall>k. k \<noteq> (s, a) \<longrightarrow>
               Mapping.lookup (q_table (update_q_value ag s a r)) k
               = Mapping.lookup (q_table ag) k)"
proof (intro conjI allI impI)
  show "Mapping.lookup (q_table (update_q_value ag s a r)) (s, a)
           = Some (q_get ag s a + learning_rate ag * (r - q_get ag s a))"
    by (simp add: update_q_value_def Let_def)
  show "\<bar>q_get (update_q_value ag s a r) s a - r\<bar>
           = (1 - learning_rate ag) * \<bar>q_get ag s a - r\<bar>"
    unfolding q_get_update_same by (rule one_step_distance [OF assms])
next
  assume "Mapping.lookup (q_table ag) (s, a) = None"
  then show "q_get ag s a = 0"
    by (simp add: q_get_def)
next
  fix k :: "string \<times> string"
  assume "k \<noteq> (s, a)"
  then show "Mapping.lookup (q_table (update_q_value ag s a r)) k = Mapping.lookup (q_table ag) k"
    by (simp add: update_q_value_def Let_def)
qed

theorem update_q_value_one_step_witness:
  "learning_rate init_agent \<le> 1
   \<and> Mapping.lookup (q_table init_agent) (''redis_high_low_healthy'', ''restart'') = None
   \<and> Mapping.lookup (q_table (update_q_value init_agent ''redis_high_low_healthy'' ''restart'' 5))
        (''redis_high_low_healthy'', ''restart'') = Some (1 / 2)
   \<and> \<bar>q_get (update_q_value init_agent ''redis_high_low_healthy'' ''restart'' 5)
        ''redis_high_low_healthy'' ''restart'' - 5\<bar> = (9 / 10) * \<bar>0 - 5\<bar>
   \<and> (''redis_high_low_healthy'', ''rollback'') \<noteq> (''redis_high_low_healthy'', ''restart'')
   \<and> Mapping.lookup (q_table (update_q_value init_agent ''redis_high_low_healthy'' ''restart'' 5))
        (''redis_high_low_healthy'', ''rollback'') = None"
  using update_q_value_one_step [of init_agent "''redis_high_low_healthy''" "''restart''" 5]
  by (simp add: init_agent_def q_get_def)

subsection \<open>The policy\<close>

lemma max_step_scan_upper:
  "snd item \<le> snd (foldl max_step item items)
   \<and> (\<forall>y \<in> set items. snd y \<le> snd (foldl max_step item items))"
proof (induction items arbitrary: item)
  case Nil
  show ?case by simp
next
  case (Cons z zs)
  have step: "snd item \<le> snd (max_step item z)" "snd z \<le> snd (max_step item z)"
    by (simp_all add: max_step_def)
  from Cons.IH [of "max_step item z"] step show ?case
    by (auto intro: order_trans)
qed

lemma max_step_scan_first:
  fixes f :: "'k \<Rightarrow> real"
  shows "find (\<lambda>a. snd (foldl max_step (x, f x) (map (\<lambda>a. (a, f a)) xs)) \<le> f a) (x # xs)
         = Some (fst (foldl max_step (x, f x) (map (\<lambda>a. (a, f a)) xs)))"
proof (induction xs arbitrary: x)
  case Nil
  show ?case by simp
next
  case (Cons y ys)
  let ?r = "\<lambda>x zs. foldl max_step (x, f x) (map (\<lambda>a. (a, f a)) zs)"
  show ?case
  proof (cases "f x < f y")
    case True
    then have eq: "?r x (y # ys) = ?r y ys"
      by (simp add: max_step_def)
    have "f y \<le> snd (?r y ys)"
      using max_step_scan_upper [of "(y, f y)" "map (\<lambda>a. (a, f a)) ys"] by simp
    with True have "\<not> snd (?r y ys) \<le> f x" by simp
    with Cons.IH [of y] show ?thesis
      unfolding eq by simp
  next
    case False
    then have eq: "?r x (y # ys) = ?r x ys"
      by (simp add: max_step_def)
    show ?thesis
    proof (cases "snd (?r x ys) \<le> f x")
      case True
      with Cons.IH [of x] show ?thesis
        unfolding eq by simp
    next
      case nx: False
      with False have "\<not> snd (?r x ys) \<le> f y" by simp
      with nx Cons.IH [of x] show ?thesis
        unfolding eq by simp
    qed
  qed
qed

lemma max_step_scan_mem:
  "foldl max_step item items \<in> set (item # items)"
proof (induction items arbitrary: item)
  case Nil
  show ?case by simp
next
  case (Cons z zs)
  from Cons.IH [of "max_step item z"] show ?case
    by (auto simp: max_step_def split: if_splits)
qed

lemma py_max_by_value_first_max:
  fixes f :: "'k \<Rightarrow> real"
  shows "py_max_by_value (map (\<lambda>a. (a, f a)) (x # xs))
         = find (\<lambda>a. list_all (\<lambda>b. f b \<le> f a) (x # xs)) (x # xs)"
proof -
  let ?items = "map (\<lambda>a. (a, f a)) xs"
  let ?r = "foldl max_step (x, f x) ?items"
  have upper: "\<forall>b \<in> set (x # xs). f b \<le> snd ?r"
    using max_step_scan_upper [of "(x, f x)" ?items] by auto
  have "?r \<in> set ((x, f x) # ?items)"
    by (rule max_step_scan_mem)
  then obtain c where c: "c \<in> set (x # xs)" "?r = (c, f c)"
    by auto
  have same: "list_all (\<lambda>b. f b \<le> f a) (x # xs) = (snd ?r \<le> f a)" for a
  proof
    assume "list_all (\<lambda>b. f b \<le> f a) (x # xs)"
    with c show "snd ?r \<le> f a"
      by (auto simp: list_all_iff)
  next
    assume "snd ?r \<le> f a"
    with upper show "list_all (\<lambda>b. f b \<le> f a) (x # xs)"
      unfolding list_all_iff by (meson order_trans)
  qed
  have "find (\<lambda>a. list_all (\<lambda>b. f b \<le> f a) (x # xs)) (x # xs)
        = find (\<lambda>a. snd ?r \<le> f a) (x # xs)"
    by (rule find_cong) (simp_all only: same)
  also have "\<dots> = Some (fst ?r)"
    by (rule max_step_scan_first)
  finally show ?thesis by simp
qed

lemma greedy_action_is_action:
  "\<exists>a. greedy_action ag state = Some a \<and> a \<in> set actions"
proof -
  obtain x xs where ax: "actions = x # xs"
    by (simp add: actions_def)
  let ?f = "q_get ag state"
  let ?r = "foldl max_step (x, ?f x) (map (\<lambda>a. (a, ?f a)) xs)"
  have "?r \<in> set ((x, ?f x) # map (\<lambda>a. (a, ?f a)) xs)"
    by (rule max_step_scan_mem)
  then have "fst ?r \<in> set (x # xs)" by auto
  moreover have "greedy_action ag state = Some (fst ?r)"
    unfolding greedy_action_def ax
    using py_max_by_value_first_max [of ?f x xs] by simp
  ultimately show ?thesis
    by (simp add: ax)
qed

lemma find_first_max:
  fixes f :: "'k \<Rightarrow> real"
  assumes "find (\<lambda>a. list_all (\<lambda>b. f b \<le> f a) xs) xs = Some a"
  shows "\<exists>i<length xs. a = xs ! i \<and> (\<forall>b \<in> set xs. f b \<le> f a) \<and> (\<forall>j<i. f (xs ! j) < f a)"
proof -
  from assms obtain i where i: "i < length xs" "a = xs ! i"
    and top: "list_all (\<lambda>b. f b \<le> f a) xs"
    and before: "\<forall>j<i. \<not> list_all (\<lambda>b. f b \<le> f (xs ! j)) xs"
    unfolding find_Some_iff by blast
  from top have all: "\<forall>b \<in> set xs. f b \<le> f a"
    by (simp add: list_all_iff)
  have "f (xs ! j) < f a" if "j < i" for j
  proof -
    from before that obtain b where "b \<in> set xs" "\<not> f b \<le> f (xs ! j)"
      unfolding list_all_iff by blast
    with all show ?thesis
      by fastforce
  qed
  with i all show ?thesis
    by blast
qed

text \<open>
  C3. With \<open>\<epsilon> = 0\<close> the exploration branch is never taken (the draw \<open>u\<close> is at least
  0), so \<^verbatim>\<open>select_action\<close> does not depend on the random draws: it returns the greedy
  action of the specification, one of the seven actions, of maximum Q-value for the state
  with unseen pairs counting as 0; every action before it in the action list has a
  strictly smaller Q-value.
\<close>

theorem select_action_greedy:
  assumes "epsilon ag = 0" and "0 \<le> u"
  shows "select_action ag u pick state = greedy_action ag state
         \<and> (\<exists>i<length actions.
               select_action ag u pick state = Some (actions ! i)
               \<and> (\<forall>b \<in> set actions. q_get ag state b \<le> q_get ag state (actions ! i))
               \<and> (\<forall>j<i. q_get ag state (actions ! j) < q_get ag state (actions ! i)))
         \<and> (\<forall>u' pick'. 0 \<le> u' \<longrightarrow>
               select_action ag u' pick' state = select_action ag u pick state)"
proof -
  have greedy: "select_action ag v p state = greedy_action ag state" if "0 \<le> v" for v p
  proof -
    obtain x xs where ax: "actions = x # xs"
      by (simp add: actions_def)
    have "select_action ag v p state = py_max_by_value (q_values ag state)"
      using assms(1) that by (simp add: select_action_def)
    also have "\<dots> = greedy_action ag state"
      unfolding q_values_def greedy_action_def ax
      by (rule py_max_by_value_first_max)
    finally show ?thesis .
  qed
  from greedy_action_is_action [of ag state] obtain a where a: "greedy_action ag state = Some a"
    by blast
  then have "find (\<lambda>a. list_all (\<lambda>b. q_get ag state b \<le> q_get ag state a) actions) actions = Some a"
    by (simp add: greedy_action_def)
  from find_first_max [OF this] a greedy [OF assms(2), of pick]
  have "\<exists>i<length actions.
               select_action ag u pick state = Some (actions ! i)
               \<and> (\<forall>b \<in> set actions. q_get ag state b \<le> q_get ag state (actions ! i))
               \<and> (\<forall>j<i. q_get ag state (actions ! j) < q_get ag state (actions ! i))"
    by auto
  moreover have "\<forall>u' pick'. 0 \<le> u' \<longrightarrow>
               select_action ag u' pick' state = select_action ag u pick state"
    using greedy assms(2) by simp
  ultimately show ?thesis
    using greedy [OF assms(2), of pick] by blast
qed

theorem select_action_greedy_witness:
  "epsilon (init_agent\<lparr>epsilon := 0\<rparr>) = 0 \<and> (0::real) \<le> 1 / 2
   \<and> select_action
        (update_q_value (update_q_value (init_agent\<lparr>epsilon := 0\<rparr>) ''s'' ''rollback'' 5)
           ''s'' ''scale_up'' 5)
        (1 / 2) 3 ''s'' = Some ''scale_up''"
  using select_action_greedy
    [of "update_q_value (update_q_value (init_agent\<lparr>epsilon := 0\<rparr>) ''s'' ''rollback'' 5)
           ''s'' ''scale_up'' 5" "1 / 2" 3 "''s''"]
  by (simp add: greedy_action_def init_agent_def update_q_value_def q_get_def actions_def Let_def)

subsection \<open>The metrics store\<close>

lemma deque_append_drop:
  "length q \<le> n \<Longrightarrow> deque_append n q x = drop (Suc (length q) - n) (q @ [x])"
  by (cases q) (auto simp: deque_append_def Let_def Suc_diff_le)

lemma deque_appends_suffix:
  "foldl (deque_append n) [] xs = drop (length xs - n) xs"
proof (induction xs rule: rev_induct)
  case Nil
  show ?case by simp
next
  case (snoc x xs)
  let ?q = "drop (length xs - n) xs"
  have len: "length ?q \<le> n" by simp
  have "foldl (deque_append n) [] (xs @ [x]) = deque_append n ?q x"
    by (simp add: snoc.IH)
  also have "\<dots> = drop (Suc (length ?q) - n) (?q @ [x])"
    by (rule deque_append_drop [OF len])
  also have "\<dots> = drop (length (xs @ [x]) - n) (xs @ [x])"
  proof (cases "length xs < n")
    case True
    then show ?thesis by simp
  next
    case False
    then have "n \<le> length xs" by simp
    then show ?thesis
      by (cases "n = 0") (simp_all add: Suc_diff_le)
  qed
  finally show ?case .
qed

text \<open>
  C7. The metrics store is a FIFO of bounded length. After any sequence of appends to an
  empty store of capacity \<open>n\<close> it holds the last \<open>n\<close> appended snapshots (all of them
  if there were fewer), oldest first; so after one append more than the capacity the
  first snapshot is gone and the others remain, in order. An append to a full store
  drops exactly its oldest element, an append to a store with room drops nothing. The
  agent's store has capacity 10000.
\<close>

theorem metrics_store_fifo:
  fixes xs ys zs q :: "'a list"
  shows "foldl (deque_append n) [] xs = drop (length xs - n) xs
   \<and> length (foldl (deque_append n) [] xs) = min n (length xs)
   \<and> foldl (deque_append (length ys)) [] (y # ys) = ys
   \<and> (y \<notin> set ys \<longrightarrow> y \<notin> set (foldl (deque_append (length ys)) [] (y # ys)))
   \<and> deque_append (length (z # zs)) (z # zs) x = zs @ [x]
   \<and> (length q < n \<longrightarrow> deque_append n q x = q @ [x])
   \<and> metrics_history (store_metrics (ag\<lparr>metrics_history := []\<rparr>) ms)
       = drop (length ms - 10000) ms"
proof -
  have all: "foldl (deque_append n) [] xs = drop (length xs - n) xs"
    by (rule deque_appends_suffix)
  have bound: "length (foldl (deque_append n) [] xs) = min n (length xs)"
    unfolding all by simp
  have over: "foldl (deque_append (length ys)) [] (y # ys) = ys"
    unfolding deque_appends_suffix by simp
  have evict: "deque_append (length (z # zs)) (z # zs) x = zs @ [x]"
    by (simp add: deque_append_def)
  have room: "length q < n \<longrightarrow> deque_append n q x = q @ [x]"
    by (simp add: deque_append_def)
  have store: "metrics_history (store_metrics (ag\<lparr>metrics_history := []\<rparr>) ms)
       = drop (length ms - 10000) ms"
    by (simp add: store_metrics_def metrics_maxlen_def deque_appends_suffix)
  from all bound over evict room store show ?thesis
    by (simp only: simp_thms)
qed

theorem metrics_store_fifo_witness:
  "foldl (deque_append 2) [] [1, 2, 3 :: nat] = [2, 3]
   \<and> (1::nat) \<notin> set [2, 3] \<and> (1::nat) \<notin> set (foldl (deque_append (length [2, 3 :: nat])) [] [1, 2, 3])
   \<and> length [7::nat] < 2 \<and> deque_append 2 [7::nat] 8 = [7, 8]"
  using metrics_store_fifo [of 2 "[1, 2, 3 :: nat]" "[2, 3 :: nat]" 1 0 "[]" 8 "[7]" init_agent "[]"]
  by (simp add: deque_append_def)

subsection \<open>The history artifact\<close>

text \<open>
  C9. The record that \<^verbatim>\<open>save_history\<close> builds holds the last \<open>min n 1000\<close> entries of
  the failure history of length \<open>n\<close>, in their order, and that record is what a save
  that succeeds writes.
\<close>

theorem history_capped:
  "failures (history_data ag now)
     = drop (length (failure_history ag) - min (length (failure_history ag)) 1000) (failure_history ag)
   \<and> length (failures (history_data ag now)) = min (length (failure_history ag)) 1000
   \<and> failure_history ag
       = take (length (failure_history ag) - 1000) (failure_history ag) @ failures (history_data ag now)
   \<and> (data_writable st \<longrightarrow>
        data_file (save_history ag now st) = Some (history_data ag now))"
  by (simp add: history_data_def save_history_def last_1000_def min_def)

theorem history_capped_witness:
  "data_writable \<lparr>data_writable = True, data_file = None\<rparr>
   \<and> map_option failures (data_file (save_history
        (init_agent\<lparr>failure_history := map (\<lambda>i. JNum (real i)) [0..<1001]\<rparr>) ''2026-01-01T00:00:00''
        \<lparr>data_writable = True, data_file = None\<rparr>))
      = Some (map (\<lambda>i. JNum (real i)) [1..<1001])"
  using history_capped [of "init_agent\<lparr>failure_history := map (\<lambda>i. JNum (real i)) [0..<1001]\<rparr>"
      "''2026-01-01T00:00:00''" "\<lparr>data_writable = True, data_file = None\<rparr>"]
  by (simp add: drop_map)

subsection \<open>Training data\<close>

lemma training_data_length:
  "length (fst (training_data h)) = length h - 10 \<and> length (snd (training_data h)) = length h - 10"
  by (simp add: training_data_def all_but_last_10_def Let_def)

lemma failed_later_iff:
  assumes "i + 5 < length h"
  shows "failed_later h i m \<longleftrightarrow>
         (\<exists>j. i < j \<and> j \<le> i + 5 \<and> service (h ! j) = service m \<and>
              (health_status (h ! j) = ''unhealthy'' \<or> restart_count (h ! j) > restart_count m))"
    (is "?L \<longleftrightarrow> ?R")
proof
  assume ?L
  then obtain k where k: "k < length (future_window h i)"
    and p: "service (future_window h i ! k) = service m \<and>
           (health_status (future_window h i ! k) = ''unhealthy''
            \<or> restart_count (future_window h i ! k) > restart_count m)"
    by (auto simp: failed_later_def Let_def list_ex_iff in_set_conv_nth)
  from k have k5: "k < 5" by (simp add: future_window_def)
  with assms have "future_window h i ! k = h ! (i + 1 + k)"
    by (simp add: future_window_def)
  with p k5 show ?R
    by (intro exI [of _ "i + 1 + k"]) simp
next
  assume ?R
  then obtain j where j: "i < j" "j \<le> i + 5"
    and p: "service (h ! j) = service m \<and>
           (health_status (h ! j) = ''unhealthy'' \<or> restart_count (h ! j) > restart_count m)"
    by blast
  define k where "k = j - (i + 1)"
  with j have k5: "k < 5" and jk: "j = i + 1 + k" by simp_all
  with assms have "k < length (future_window h i)" "future_window h i ! k = h ! j"
    by (simp_all add: future_window_def)
  with p have "\<exists>x \<in> set (future_window h i). service x = service m \<and>
           (health_status x = ''unhealthy'' \<or> restart_count x > restart_count m)"
    by (metis nth_mem)
  then show ?L
    by (simp add: failed_later_def Let_def list_ex_iff)
qed

lemma take_filter_mem:
  assumes "x \<in> set (take k xs)" and "P x"
  shows "x \<in> set (take k (filter P xs))"
proof -
  let ?A = "filter P (take k xs)"
  have "length ?A \<le> k"
    by (rule order_trans [OF length_filter_le]) simp
  moreover have "filter P xs = ?A @ filter P (drop k xs)"
    by (metis append_take_drop_id filter_append)
  ultimately have "take k (filter P xs) = ?A @ take (k - length ?A) (filter P (drop k xs))"
    by (metis take_append take_all)
  moreover from assms have "x \<in> set ?A" by simp
  ultimately show ?thesis by simp
qed

lemma failed_later_same_service:
  assumes "failed_later h i (h ! i)"
  shows "list_ex (\<lambda>m. health_status m = ''unhealthy'' \<or> restart_count m > restart_count (h ! i))
           (next_same_service 5 h i)"
proof -
  from assms obtain m where m: "m \<in> set (take 5 (drop (i + 1) h))"
    and s: "service m = service (h ! i)"
    and d: "health_status m = ''unhealthy'' \<or> restart_count m > restart_count (h ! i)"
    by (auto simp: failed_later_def future_window_def Let_def list_ex_iff)
  from take_filter_mem [of m 5 "drop (i + 1) h" "\<lambda>m. service m = service (h ! i)", OF m s]
  have "m \<in> set (next_same_service 5 h i)"
    by (simp add: next_same_service_def)
  with d show ?thesis
    unfolding list_ex_iff by blast
qed

text \<open>
  C4 (as the code has it). The training set has one row per snapshot of the stored window
  except its last 10, in the window's order, the row being the features of that
  snapshot. Every label is 0 or 1, and a label is 1 only if one of the next five
  snapshots of the same service is \<^verbatim>\<open>'unhealthy'\<close> or has a strictly larger
  \<^verbatim>\<open>restart_count\<close>.
\<close>

theorem training_labels:
  "length (fst (training_data h)) = length h - 10
   \<and> length (snd (training_data h)) = length h - 10
   \<and> (\<forall>i. i < length h - 10 \<longrightarrow>
        fst (training_data h) ! i = to_features (h ! i)
        \<and> (snd (training_data h) ! i = 0 \<or> snd (training_data h) ! i = 1)
        \<and> (snd (training_data h) ! i = 1 \<longrightarrow>
             list_ex (\<lambda>m. health_status m = ''unhealthy''
                           \<or> restart_count m > restart_count (h ! i))
               (next_same_service 5 h i)))"
proof (intro conjI allI impI)
  fix i assume i: "i < length h - 10"
  then have il: "i < length (all_but_last_10 h)" and nth: "all_but_last_10 h ! i = h ! i"
    by (simp_all add: all_but_last_10_def)
  from il show "fst (training_data h) ! i = to_features (h ! i)"
    by (simp add: training_data_def Let_def nth_enumerate_eq nth)
  from il have lab: "snd (training_data h) ! i = (if failed_later h i (h ! i) then 1 else 0)"
    by (simp add: training_data_def Let_def nth_enumerate_eq nth)
  then show "snd (training_data h) ! i = 0 \<or> snd (training_data h) ! i = 1"
    by simp
  assume "snd (training_data h) ! i = 1"
  with lab have "failed_later h i (h ! i)"
    by (simp split: if_splits)
  then show "list_ex (\<lambda>m. health_status m = ''unhealthy''
                           \<or> restart_count m > restart_count (h ! i))
               (next_same_service 5 h i)"
    by (rule failed_later_same_service)
qed (simp_all add: training_data_length)

theorem training_labels_witness:
  "0 < length sample_window - 10
   \<and> length (snd (training_data sample_window)) = 3
   \<and> snd (training_data sample_window) ! 0 = 1
   \<and> list_ex (\<lambda>m. health_status m = ''unhealthy''
                    \<or> restart_count m > restart_count (sample_window ! 0))
        (next_same_service 5 sample_window 0)"
proof -
  have len: "length sample_window = 13"
    by (simp add: sample_window_def)
  have l0: "snd (training_data sample_window) ! 0 = 1"
    by (simp add: training_data_def all_but_last_10_def failed_later_def future_window_def
        sample_window_def snapshot_def Let_def)
  have th: "length (snd (training_data sample_window)) = length sample_window - 10"
    "\<And>i. i < length sample_window - 10 \<Longrightarrow> snd (training_data sample_window) ! i = 1 \<Longrightarrow>
       list_ex (\<lambda>m. health_status m = ''unhealthy''
                     \<or> restart_count m > restart_count (sample_window ! i))
         (next_same_service 5 sample_window i)"
    using training_labels [of sample_window] by blast+
  have "list_ex (\<lambda>m. health_status m = ''unhealthy''
                    \<or> restart_count m > restart_count (sample_window ! 0))
        (next_same_service 5 sample_window 0)"
    by (rule th(2) [OF _ l0]) (simp add: len)
  with l0 th(1) show ?thesis
    by (simp add: len)
qed

text \<open>
  The converse is left open. The loop looks at the next five entries of the window, which
  holds the services interleaved: with one snapshot of each of the seven services per
  tick, the next snapshot of the same service is seven entries later. A service that is
  unhealthy at its next two snapshots is labelled 0.
\<close>

lemma interleaved_label_zero:
  "snd (training_data interleaved_window) ! 0 = 0
   \<and> map health_status (next_same_service 5 interleaved_window 0) = [''unhealthy'', ''unhealthy'']"
  by (simp add: training_data_def all_but_last_10_def failed_later_def future_window_def
      interleaved_window_def tick_def services_def snapshot_def next_same_service_def Let_def)

text \<open>
  The claim that exactly the last five snapshots are left out fails: of a window of 100
  snapshots, 90 are in the training set, not 95.
\<close>

theorem training_excludes_ten_counterexample:
  "length (fst (training_data full_window)) = 90
   \<and> length (fst (training_data full_window)) \<noteq> 100 - 5"
  by (simp add: training_data_def all_but_last_10_def full_window_def Let_def)

subsection \<open>The model group\<close>

lemma train_body_cases:
  "snd (train_body sk ag) = None \<Longrightarrow>
     failure_predictor (fst (train_body sk ag)) \<noteq> None
     \<and> anomaly_detector (fst (train_body sk ag)) \<noteq> None
     \<and> scaler (fst (train_body sk ag)) \<noteq> None"
  by (auto simp: train_body_def Let_def split: prod.splits sum.splits option.splits)

lemma train_models_short: "length (metrics_history ag) < 100 \<Longrightarrow> train_models sk ag = ag"
  by (simp add: train_models_def)

lemma train_models_ok:
  assumes "100 \<le> length (metrics_history ag)" and "snd (train_body sk ag) = None"
  shows "failure_predictor (train_models sk ag) \<noteq> None
         \<and> anomaly_detector (train_models sk ag) \<noteq> None
         \<and> scaler (train_models sk ag) \<noteq> None"
  using assms train_body_cases [of sk ag] by (simp add: train_models_def)

lemma load_models_all_or_none:
  assumes "group_atomic ag" and "dir_all_or_none d"
  shows "group_atomic (load_models ag d)"
  using assms
  by (auto simp: group_atomic_def dir_all_or_none_def load_models_def loadable_def Let_def
      split: option.splits pkl.splits)

lemma train_body_fitted:
  assumes "snd (train_body sk ag) = None"
  shows "\<exists>Xs. failure_predictor (fst (train_body sk ag))
                = Some (RandomForestClassifier (Some (Xs, snd (training_data (metrics_history ag)))))
              \<and> anomaly_detector (fst (train_body sk ag)) = Some (IsolationForest (Some Xs))
              \<and> scaler (fst (train_body sk ag))
                = Some (StandardScaler (Some (fst (training_data (metrics_history ag)))))"
  using assms
  by (simp add: train_body_def Let_def case_prod_beta split: sum.splits option.splits)

lemma save_models_fitted:
  assumes "dir_ok d"
    and "failure_predictor ag = Some (RandomForestClassifier (Some p))"
    and "anomaly_detector ag = Some (IsolationForest (Some q))"
    and "scaler ag = Some s"
  shows "dir_ok (save_models ag d)
         \<and> predictor_pkl (save_models ag d) = Some (Pickled (RandomForestClassifier (Some p)))
         \<and> anomaly_pkl (save_models ag d) = Some (Pickled (IsolationForest (Some q)))
         \<and> scaler_pkl (save_models ag d) = Some (Pickled s)"
  using assms
  by (simp add: save_models_def forest_truthy_def isolation_truthy_def Let_def)

lemma load_models_all_present:
  assumes "dir_ok d"
    and "predictor_pkl d = Some (Pickled p)"
    and "anomaly_pkl d = Some (Pickled q)"
    and "scaler_pkl d = Some (Pickled s)"
  shows "failure_predictor (load_models a d) = Some p
         \<and> anomaly_detector (load_models a d) = Some q
         \<and> scaler (load_models a d) = Some s"
  using assms
  by (simp add: load_models_def Let_def split: option.splits pkl.splits)

lemma save_then_load:
  assumes "dir_ok d" and "snd (train_body sk ag) = None"
  shows "failure_predictor (load_models a (save_models (fst (train_body sk ag)) d))
           = failure_predictor (fst (train_body sk ag))
         \<and> anomaly_detector (load_models a (save_models (fst (train_body sk ag)) d))
           = anomaly_detector (fst (train_body sk ag))
         \<and> scaler (load_models a (save_models (fst (train_body sk ag)) d))
           = scaler (fst (train_body sk ag))"
proof -
  let ?t = "fst (train_body sk ag)"
  from train_body_fitted [OF assms(2)] obtain Xs y X where
    t: "failure_predictor ?t = Some (RandomForestClassifier (Some (Xs, y)))"
       "anomaly_detector ?t = Some (IsolationForest (Some Xs))"
       "scaler ?t = Some (StandardScaler (Some X))"
    by blast
  note s = save_models_fitted [OF assms(1) t]
  from s have "dir_ok (save_models ?t d)"
    "predictor_pkl (save_models ?t d) = Some (Pickled (RandomForestClassifier (Some (Xs, y))))"
    "anomaly_pkl (save_models ?t d) = Some (Pickled (IsolationForest (Some Xs)))"
    "scaler_pkl (save_models ?t d) = Some (Pickled (StandardScaler (Some X)))"
    by blast+
  from load_models_all_present [OF this, of a] t show ?thesis
    by simp
qed

text \<open>
  C5 (as the code has it). The three attributes are assigned one at a time, so being all
  set or all unset is kept only along these paths: \<^verbatim>\<open>train_models\<close> when it is skipped
  (fewer than 100 snapshots) or when every fit returns; \<^verbatim>\<open>load_models\<close> when the
  directory cannot be prepared or holds all three artifacts or none of them, each
  readable. \<^verbatim>\<open>save_models\<close> assigns no attribute, and a group saved after a training
  in which every fit returned loads back whole.
\<close>

theorem model_group_all_or_none:
  assumes "group_atomic ag"
  shows "(length (metrics_history ag) < 100 \<or> snd (train_body sk ag) = None \<longrightarrow>
            group_atomic (train_models sk ag))
         \<and> (\<not> dir_ok d \<or> dir_all_or_none d \<longrightarrow> group_atomic (load_models ag d))
         \<and> (100 \<le> length (metrics_history ag) \<and> snd (train_body sk ag) = None \<and> dir_ok d \<longrightarrow>
              failure_predictor (load_models a (save_models (train_models sk ag) d))
                = failure_predictor (train_models sk ag)
              \<and> anomaly_detector (load_models a (save_models (train_models sk ag) d))
                = anomaly_detector (train_models sk ag)
              \<and> scaler (load_models a (save_models (train_models sk ag) d))
                = scaler (train_models sk ag))"
proof (intro conjI impI)
  assume "length (metrics_history ag) < 100 \<or> snd (train_body sk ag) = None"
  then show "group_atomic (train_models sk ag)"
  proof (cases "length (metrics_history ag) < 100")
    case True
    with assms show ?thesis
      by (simp add: train_models_short)
  next
    case False
    moreover assume "length (metrics_history ag) < 100 \<or> snd (train_body sk ag) = None"
    ultimately have "100 \<le> length (metrics_history ag)" "snd (train_body sk ag) = None"
      by simp_all
    from train_models_ok [OF this] show ?thesis
      by (simp add: group_atomic_def)
  qed
next
  assume "\<not> dir_ok d \<or> dir_all_or_none d"
  then show "group_atomic (load_models ag d)"
  proof
    assume "\<not> dir_ok d"
    with assms show ?thesis
      by (simp add: load_models_def)
  next
    assume "dir_all_or_none d"
    with assms show ?thesis
      by (rule load_models_all_or_none)
  qed
next
  assume h: "100 \<le> length (metrics_history ag) \<and> snd (train_body sk ag) = None \<and> dir_ok d"
  then have eq: "train_models sk ag = fst (train_body sk ag)"
    by (simp add: train_models_def)
  from h have "dir_ok d" "snd (train_body sk ag) = None"
    by simp_all
  note sl = save_then_load [OF this, of a]
  from sl show "failure_predictor (load_models a (save_models (train_models sk ag) d))
                = failure_predictor (train_models sk ag)"
    unfolding eq by (rule conjunct1)
  from sl show "anomaly_detector (load_models a (save_models (train_models sk ag) d))
                = anomaly_detector (train_models sk ag)"
    unfolding eq by blast
  from sl show "scaler (load_models a (save_models (train_models sk ag) d))
                = scaler (train_models sk ag)"
    unfolding eq by blast
qed

theorem model_group_all_or_none_witness:
  "group_atomic (init_agent\<lparr>metrics_history := full_window\<rparr>)
   \<and> snd (train_body fits_return (init_agent\<lparr>metrics_history := full_window\<rparr>)) = None
   \<and> group_atomic (train_models fits_return (init_agent\<lparr>metrics_history := full_window\<rparr>))
   \<and> dir_all_or_none empty_dir
   \<and> group_atomic (load_models (init_agent\<lparr>metrics_history := full_window\<rparr>) empty_dir)
   \<and> 100 \<le> length (metrics_history (init_agent\<lparr>metrics_history := full_window\<rparr>))
   \<and> dir_ok empty_dir
   \<and> scaler (load_models init_agent
        (save_models (train_models fits_return (init_agent\<lparr>metrics_history := full_window\<rparr>))
           empty_dir))
      = scaler (train_models fits_return (init_agent\<lparr>metrics_history := full_window\<rparr>))"
proof -
  let ?ag = "init_agent\<lparr>metrics_history := full_window\<rparr>"
  have g: "group_atomic ?ag"
    by (simp add: group_atomic_def init_agent_def)
  have t: "snd (train_body fits_return ?ag) = None"
    by (simp add: train_body_def fits_return_def case_prod_beta)
  have d: "dir_all_or_none empty_dir" "dir_ok empty_dir"
    by (simp_all add: dir_all_or_none_def empty_dir_def)
  have n: "100 \<le> length (metrics_history ?ag)"
    by (simp add: full_window_def)
  from model_group_all_or_none [OF g, of fits_return empty_dir init_agent] t d n
  have "group_atomic (train_models fits_return ?ag)"
    "group_atomic (load_models ?ag empty_dir)"
    "scaler (load_models init_agent (save_models (train_models fits_return ?ag) empty_dir))
      = scaler (train_models fits_return ?ag)"
    by blast+
  with g t d n show ?thesis
    by (simp only: simp_thms)
qed

text \<open>
  The claim that no operation leaves the group partially set fails: loading into a fresh
  agent from a directory that holds only the classifier's artifact sets the classifier
  and leaves detector and scaler unset.
\<close>

theorem model_group_counterexample:
  "group_atomic init_agent \<and> \<not> group_atomic (load_models init_agent predictor_only_dir)"
  by (simp add: group_atomic_def init_agent_def load_models_def predictor_only_dir_def)

text \<open>
  C6 (as the code has it). With fewer than 100 stored snapshots \<^verbatim>\<open>train_models\<close>
  changes nothing. With at least 100, when every fit returns, classifier, detector and
  scaler are all non-null afterwards, the scaler being the one fitted on this window.
\<close>

theorem train_models_outcomes:
  "(length (metrics_history ag) < 100 \<longrightarrow> train_models sk ag = ag)
   \<and> (100 \<le> length (metrics_history ag) \<and> snd (train_body sk ag) = None \<longrightarrow>
        failure_predictor (train_models sk ag) \<noteq> None
        \<and> anomaly_detector (train_models sk ag) \<noteq> None
        \<and> scaler (train_models sk ag) \<noteq> None
        \<and> scaler (train_models sk ag)
            = Some (StandardScaler (Some (fst (training_data (metrics_history ag))))))"
proof (intro conjI impI)
  assume "length (metrics_history ag) < 100"
  then show "train_models sk ag = ag"
    by (rule train_models_short)
next
  assume h: "100 \<le> length (metrics_history ag) \<and> snd (train_body sk ag) = None"
  then have l: "100 \<le> length (metrics_history ag)" and t: "snd (train_body sk ag) = None"
    by simp_all
  note ok = train_models_ok [OF l t]
  from ok show "failure_predictor (train_models sk ag) \<noteq> None" by (rule conjunct1)
  from ok show "anomaly_detector (train_models sk ag) \<noteq> None" by blast
  from ok show "scaler (train_models sk ag) \<noteq> None" by blast
  from train_body_fitted [OF t] l
  show "scaler (train_models sk ag)
            = Some (StandardScaler (Some (fst (training_data (metrics_history ag)))))"
    by (auto simp: train_models_def)
qed

theorem train_models_outcomes_witness:
  "length (metrics_history init_agent) < 100
   \<and> train_models fits_return init_agent = init_agent
   \<and> 100 \<le> length (metrics_history (init_agent\<lparr>metrics_history := full_window\<rparr>))
   \<and> snd (train_body fits_return (init_agent\<lparr>metrics_history := full_window\<rparr>)) = None
   \<and> failure_predictor (train_models fits_return (init_agent\<lparr>metrics_history := full_window\<rparr>))
       \<noteq> None
   \<and> anomaly_detector (train_models fits_return (init_agent\<lparr>metrics_history := full_window\<rparr>))
       \<noteq> None
   \<and> scaler (train_models fits_return (init_agent\<lparr>metrics_history := full_window\<rparr>)) \<noteq> None"
proof -
  let ?ag = "init_agent\<lparr>metrics_history := full_window\<rparr>"
  have s: "length (metrics_history init_agent) < 100"
    by (simp add: init_agent_def)
  have n: "100 \<le> length (metrics_history ?ag)"
    by (simp add: full_window_def)
  have t: "snd (train_body fits_return ?ag) = None"
    by (simp add: train_body_def fits_return_def case_prod_beta)
  from train_models_outcomes [of init_agent fits_return] s
  have "train_models fits_return init_agent = init_agent"
    by blast
  moreover from train_models_outcomes [of ?ag fits_return] n t
  have "failure_predictor (train_models fits_return ?ag) \<noteq> None"
    "anomaly_detector (train_models fits_return ?ag) \<noteq> None"
    "scaler (train_models fits_return ?ag) \<noteq> None"
    by blast+
  ultimately show ?thesis
    using s n t by (simp only: simp_thms)
qed

text \<open>
  The claim that at least 100 snapshots leave all three non-null, and that the published
  group stays in place when training fails, does not hold: \<^verbatim>\<open>self.scaler\<close> is assigned
  a new, unfitted scaler before anything is fitted. When the scaler's fit raises on a
  window of 100, a fresh agent ends with the scaler set and no classifier, and an agent
  that had a trained group ends with another scaler than the one it had.
\<close>

theorem train_models_counterexample:
  "100 \<le> length (metrics_history (init_agent\<lparr>metrics_history := full_window\<rparr>))
   \<and> failure_predictor (train_models scaler_raises (init_agent\<lparr>metrics_history := full_window\<rparr>))
       = None
   \<and> scaler (train_models scaler_raises (init_agent\<lparr>metrics_history := full_window\<rparr>))
       = Some (StandardScaler None)
   \<and> scaler (train_models scaler_raises
        (train_models fits_return (init_agent\<lparr>metrics_history := full_window\<rparr>)))
       \<noteq> scaler (train_models fits_return (init_agent\<lparr>metrics_history := full_window\<rparr>))"
  by (simp add: train_models_def train_body_def full_window_def init_agent_def scaler_raises_def
      fits_return_def case_prod_beta)

end
